theory Spec2Isabelle
  imports Main "HOL-Library.Word"
begin

section \<open>JavaScript values\<close>

text \<open>
  A JavaScript string is a sequence of UTF-16 code units. The component's Korean
  literals are written out as their code units.
\<close>

type_synonym jsstring = "16 word list"

definition ascii :: "string \<Rightarrow> jsstring" where
  "ascii cs = map (\<lambda>c. word_of_nat (of_char c)) cs"

text \<open>
  \<open>String.prototype.trim\<close> strips WhiteSpace and LineTerminator code points from both
  ends (ECMAScript: TAB, LF, VT, FF, CR, SP, NBSP, the Unicode space separators, LS, PS
  and the byte order mark).
\<close>

definition js_whitespace :: "16 word \<Rightarrow> bool" where
  "js_whitespace c \<longleftrightarrow>
     c \<in> set [0x0009, 0x000A, 0x000B, 0x000C, 0x000D, 0x0020, 0x00A0, 0x1680,
              0x2000, 0x2001, 0x2002, 0x2003, 0x2004, 0x2005, 0x2006, 0x2007,
              0x2008, 0x2009, 0x200A, 0x2028, 0x2029, 0x202F, 0x205F, 0x3000, 0xFEFF]"

definition trim :: "jsstring \<Rightarrow> jsstring" where
  "trim s = rev (dropWhile js_whitespace (rev (dropWhile js_whitespace s)))"

text \<open>The decimal digits of a number, as a template literal prints \<open>res.status\<close>.\<close>

function decimal :: "nat \<Rightarrow> jsstring" where
  "decimal n = (if n < 10 then [word_of_nat (48 + n)]
                else decimal (n div 10) @ [word_of_nat (48 + n mod 10)])"
  by pat_completeness auto
termination
  by (relation "measure (\<lambda>n. n)") auto

declare decimal.simps [simp del]

text \<open>
  The values \<open>res.json()\<close> can produce, and \<open>undefined\<close> for a property that is not
  there. The component only tests a number for being zero, so a number is an integer
  here. An object is the list of its own properties.
\<close>

datatype jsval =
    JUndefined
  | JNull
  | JBool bool
  | JNum int
  | JStr jsstring
  | JArr "jsval list"
  | JObj "(jsstring \<times> jsval) list"

text \<open>\<open>!v\<close> is false exactly on the truthy values.\<close>

fun truthy :: "jsval \<Rightarrow> bool" where
  "truthy JUndefined = False"
| "truthy JNull = False"
| "truthy (JBool b) = b"
| "truthy (JNum n) = (n \<noteq> 0)"
| "truthy (JStr s) = (s \<noteq> [])"
| "truthy (JArr xs) = True"
| "truthy (JObj kvs) = True"

text \<open>
  Reading \<open>data.key\<close>, for the keys the component reads (\<open>answer\<close>, \<open>sources\<close>,
  \<open>vehicles\<close>, \<open>available_vehicles\<close>: none of them is inherited from a prototype).
  On \<open>null\<close> and \<open>undefined\<close> the read throws a TypeError (\<open>None\<close>); on any other
  value without the key it gives \<open>undefined\<close>.
\<close>

fun get_prop :: "jsval \<Rightarrow> jsstring \<Rightarrow> jsval option" where
  "get_prop JUndefined k = None"
| "get_prop JNull k = None"
| "get_prop (JObj kvs) k = (case map_of kvs k of None \<Rightarrow> Some JUndefined | Some v \<Rightarrow> Some v)"
| "get_prop v k = Some JUndefined"

text \<open>\<open>String.prototype.includes\<close> with a string argument: a substring test.\<close>

fun starts_with :: "jsstring \<Rightarrow> jsstring \<Rightarrow> bool" where
  "starts_with s [] = True"
| "starts_with [] (c # cs) = False"
| "starts_with (x # xs) (c # cs) = (x = c \<and> starts_with xs cs)"

fun str_includes :: "jsstring \<Rightarrow> jsstring \<Rightarrow> bool" where
  "str_includes [] v = (v = [])"
| "str_includes (x # xs) v = (starts_with (x # xs) v \<or> str_includes xs v)"

text \<open>
  \<open>xs.includes(v)\<close> for a string \<open>v\<close>: on an array, membership (SameValueZero, which
  on strings is equality); on a string, the substring test; on anything else the call
  throws (\<open>None\<close>).
\<close>

fun js_includes :: "jsval \<Rightarrow> jsstring \<Rightarrow> bool option" where
  "js_includes (JArr xs) v = Some (JStr v \<in> set xs)"
| "js_includes (JStr s) v = Some (str_includes s v)"
| "js_includes x v = None"

section \<open>The component's state\<close>

datatype role = User | Bot

text \<open>
  A message object \<open>{type, content, timestamp, sources}\<close>. The content of a bot
  message is whatever \<open>data.answer\<close> was; \<open>sources\<close> is absent (\<open>None\<close>) on user,
  welcome and error messages. The timestamp is \<open>new Date()\<close>, in milliseconds.
\<close>

record message =
  mtype :: role
  content :: jsval
  timestamp :: nat
  sources :: "jsval option"

text \<open>The \<open>useState\<close> cells of \<open>App\<close>, in the order of the source.\<close>

record state =
  question :: jsstring
  selectedVehicle :: jsstring
  availableVehicles :: jsval
  allVehicles :: jsval
  vehicleSelectionStep :: bool
  messages :: "message list"
  loading :: bool
  loadingStep :: jsstring

definition default_codes :: "jsstring list" where
  "default_codes = [ascii ''SONATA'', ascii ''SANTAFE'', ascii ''TUCSON'',
                    ascii ''AVANTE'', ascii ''GRANDEUR'', ascii ''PALISADE'']"

definition init_state :: state where
  "init_state = \<lparr>question = [], selectedVehicle = [],
     availableVehicles = JArr (map JStr default_codes),
     allVehicles = JArr (map JStr default_codes),
     vehicleSelectionStep = True, messages = [], loading = False, loadingStep = []\<rparr>"

section \<open>What a handler does\<close>

text \<open>
  A handler is the list of the state setters it calls and the effects it starts, in
  program order. \<open>AppendMessage m\<close> is the functional update
  \<open>setMessages(prev => [...prev, m])\<close>; \<open>FetchAsk q vehicle\<close> is the POST to
  \<open>/ask\<close> with body \<open>{q, vehicle}\<close>; \<open>ReadJson\<close> is the call of \<open>res.json()\<close>;
  \<open>ConsoleError label message\<close> is \<open>console.error(label, error)\<close>.
\<close>

datatype action =
    SetQuestion jsstring
  | SetSelectedVehicle jsstring
  | SetAvailableVehicles jsval
  | SetAllVehicles jsval
  | SetVehicleSelectionStep bool
  | SetMessages "message list"
  | AppendMessage message
  | SetLoading bool
  | SetLoadingStep jsstring
  | FetchVehicles
  | FetchAsk jsstring jsstring
  | ReadJson
  | ConsoleError jsstring jsstring

fun exec :: "action \<Rightarrow> state \<Rightarrow> state" where
  "exec (SetQuestion q) s = s\<lparr>question := q\<rparr>"
| "exec (SetSelectedVehicle v) s = s\<lparr>selectedVehicle := v\<rparr>"
| "exec (SetAvailableVehicles vs) s = s\<lparr>availableVehicles := vs\<rparr>"
| "exec (SetAllVehicles vs) s = s\<lparr>allVehicles := vs\<rparr>"
| "exec (SetVehicleSelectionStep b) s = s\<lparr>vehicleSelectionStep := b\<rparr>"
| "exec (SetMessages ms) s = s\<lparr>messages := ms\<rparr>"
| "exec (AppendMessage m) s = s\<lparr>messages := messages s @ [m]\<rparr>"
| "exec (SetLoading b) s = s\<lparr>loading := b\<rparr>"
| "exec (SetLoadingStep l) s = s\<lparr>loadingStep := l\<rparr>"
| "exec FetchVehicles s = s"
| "exec (FetchAsk q v) s = s"
| "exec ReadJson s = s"
| "exec (ConsoleError l m) s = s"

definition run :: "action list \<Rightarrow> state \<Rightarrow> state" where
  "run acts s = fold exec acts s"

fun is_network :: "action \<Rightarrow> bool" where
  "is_network FetchVehicles = True"
| "is_network (FetchAsk q v) = True"
| "is_network a = False"

fun is_ask_request :: "action \<Rightarrow> bool" where
  "is_ask_request (FetchAsk q v) = True"
| "is_ask_request a = False"

fun is_console :: "action \<Rightarrow> bool" where
  "is_console (ConsoleError l m) = True"
| "is_console a = False"

section \<open>The literals of the source\<close>

definition welcome_text :: "jsstring \<Rightarrow> jsstring" where
  "welcome_text vehicle =
     [0xC548, 0xB155, 0xD558, 0xC138, 0xC694, 0x0021, 0x0020, 0x002A, 0x002A] @ vehicle @
     [0x002A, 0x002A, 0x0020, 0xB9E4, 0xB274, 0xC5BC, 0x0020, 0x0051, 0x0041, 0x0020,
      0xC5B4, 0xC2DC, 0xC2A4, 0xD134, 0xD2B8, 0xC785, 0xB2C8, 0xB2E4, 0x002E, 0x0020,
      0xCC28, 0xB7C9, 0x0020, 0xAD00, 0xB828, 0x0020, 0xAD81, 0xAE08, 0xD55C, 0x0020,
      0xC810, 0xC744, 0x0020, 0xC5B8, 0xC81C, 0xB4E0, 0x0020, 0xBB3C, 0xC5B4, 0xBCF4,
      0xC138, 0xC694, 0x002E]"

definition searching_label :: jsstring where
  "searching_label =
     [0xB9E4, 0xB274, 0xC5BC, 0x0020, 0xAC80, 0xC0C9, 0x0020, 0xC911, 0x002E, 0x002E, 0x002E]"

definition generating_label :: jsstring where
  "generating_label =
     [0xB2F5, 0xBCC0, 0x0020, 0xC0DD, 0xC131, 0x0020, 0xC911, 0x002E, 0x002E, 0x002E]"

definition error_prefix :: jsstring where
  "error_prefix =
     [0xC8C4, 0xC1A1, 0xD569, 0xB2C8, 0xB2E4, 0x002E, 0x0020, 0xC624, 0xB958, 0xAC00,
      0x0020, 0xBC1C, 0xC0DD, 0xD588, 0xC2B5, 0xB2C8, 0xB2E4, 0x003A, 0x0020]"

definition api_error_label :: jsstring where
  "api_error_label =
     [0x0041, 0x0050, 0x0049, 0x0020, 0xC694, 0xCCAD, 0x0020, 0xC624, 0xB958, 0x003A]"

definition catalog_error_label :: jsstring where
  "catalog_error_label =
     [0xCC28, 0xB7C9, 0x0020, 0xBAA9, 0xB85D, 0x0020, 0xB85C, 0xB4DC, 0x0020, 0xC624,
      0xB958, 0x003A]"

definition http_error_message :: "nat \<Rightarrow> jsstring" where
  "http_error_message status = ascii ''HTTP error! status: '' @ decimal status"

datatype quick = EngineOil | TirePressure | Battery | Service

fun quick_question :: "quick \<Rightarrow> jsstring" where
  "quick_question EngineOil =
     [0xC5D4, 0xC9C4, 0xC624, 0xC77C, 0x0020, 0xAD50, 0xD658, 0x0020, 0xBC29, 0xBC95,
      0xC744, 0x0020, 0xC54C, 0xB824, 0xC8FC, 0xC138, 0xC694]"
| "quick_question TirePressure =
     [0xD0C0, 0xC774, 0xC5B4, 0x0020, 0xACF5, 0xAE30, 0xC555, 0x0020, 0xC810, 0xAC80,
      0x0020, 0xBC29, 0xBC95, 0xC744, 0x0020, 0xC54C, 0xB824, 0xC8FC, 0xC138, 0xC694]"
| "quick_question Battery =
     [0xBC30, 0xD130, 0xB9AC, 0x0020, 0xC810, 0xAC80, 0xC740, 0x0020, 0xC5B4, 0xB5BB,
      0xAC8C, 0x0020, 0xD558, 0xB098, 0xC694, 0x003F]"
| "quick_question Service =
     [0xC815, 0xAE30, 0x0020, 0xC810, 0xAC80, 0x0020, 0xC8FC, 0xAE30, 0xB97C, 0x0020,
      0xC54C, 0xB824, 0xC8FC, 0xC138, 0xC694]"

section \<open>What the network gives back\<close>

text \<open>
  \<open>await fetch(...)\<close> either rejects (with an error whose message is given) or
  resolves to a response with a status; \<open>res.ok\<close> is true on the statuses 200 to 299.
  \<open>await res.json()\<close> either rejects (the body is not JSON) or gives the parsed value.
\<close>

datatype fetch_result = FetchRejected jsstring | Responded nat

datatype body_result = JsonRejected jsstring | JsonParsed jsval

definition ok :: "nat \<Rightarrow> bool" where
  "ok status \<longleftrightarrow> 200 \<le> status \<and> status \<le> 299"

section \<open>The handlers\<close>

text \<open>
  The message objects \<open>ask\<close> builds, under the names the source gives them:
  \<open>userMessage\<close> from the draft, \<open>errorMessage\<close> from the message of the error caught,
  \<open>botMessage\<close> from \<open>data.answer\<close> and \<open>data.sources || []\<close>.
\<close>

abbreviation userMessage :: "jsstring \<Rightarrow> nat \<Rightarrow> message" where
  "userMessage q now \<equiv>
     \<lparr>mtype = User, content = JStr q, timestamp = now, sources = None\<rparr>"

abbreviation errorMessage :: "jsstring \<Rightarrow> nat \<Rightarrow> message" where
  "errorMessage msg now \<equiv>
     \<lparr>mtype = Bot, content = JStr (error_prefix @ msg), timestamp = now, sources = None\<rparr>"

abbreviation botMessage :: "jsval \<Rightarrow> jsval \<Rightarrow> nat \<Rightarrow> message" where
  "botMessage answer src now \<equiv>
     \<lparr>mtype = Bot, content = answer, timestamp = now,
      sources = Some (if truthy src then src else JArr [])\<rparr>"

subsection \<open>fetchVehicles\<close>

text \<open>
  The function runs in three pieces: up to \<open>await fetch\<close>, from there to
  \<open>await res.json()\<close>, and the rest. It does not look at \<open>res.ok\<close>. The parameter
  \<open>tem\<close> is the message the engine gives the TypeError of reading a property of
  \<open>null\<close>.
\<close>

definition fetchVehicles :: "action list" where
  "fetchVehicles = [FetchVehicles]"

definition fetchVehicles_fetched :: "fetch_result \<Rightarrow> action list" where
  "fetchVehicles_fetched r =
     (case r of
        FetchRejected msg \<Rightarrow> [ConsoleError catalog_error_label msg]
      | Responded status \<Rightarrow> [ReadJson])"

definition fetchVehicles_parsed :: "jsstring \<Rightarrow> body_result \<Rightarrow> action list" where
  "fetchVehicles_parsed tem b =
     (case b of
        JsonRejected msg \<Rightarrow> [ConsoleError catalog_error_label msg]
      | JsonParsed data \<Rightarrow>
          (case get_prop data (ascii ''vehicles'') of
             None \<Rightarrow> [ConsoleError catalog_error_label tem]
           | Some vs \<Rightarrow>
               (case get_prop data (ascii ''available_vehicles'') of
                  None \<Rightarrow> [SetAllVehicles vs, ConsoleError catalog_error_label tem]
                | Some av \<Rightarrow> [SetAllVehicles vs, SetAvailableVehicles av])))"

subsection \<open>selectVehicle, changeVehicle\<close>

definition selectVehicle :: "jsstring \<Rightarrow> nat \<Rightarrow> action list" where
  "selectVehicle vehicle now =
     [SetSelectedVehicle vehicle,
      SetVehicleSelectionStep False,
      SetMessages [\<lparr>mtype = Bot, content = JStr (welcome_text vehicle),
                    timestamp = now, sources = None\<rparr>]]"

definition changeVehicle :: "action list" where
  "changeVehicle =
     [SetVehicleSelectionStep True, SetSelectedVehicle [], SetMessages [], SetQuestion []]"

subsection \<open>ask\<close>

text \<open>
  \<open>ask\<close> reads \<open>question\<close> and \<open>selectedVehicle\<close> of the render it was created in,
  and nothing of the state after its first \<open>await\<close>: what follows only calls setters.
  It runs in three pieces, like \<open>fetchVehicles\<close>; \<open>ask_catch\<close> is its \<open>catch\<close> block.
\<close>

definition ask :: "state \<Rightarrow> nat \<Rightarrow> action list" where
  "ask s now =
     (if trim (question s) = [] \<or> selectedVehicle s = [] then []
      else [AppendMessage (userMessage (question s) now),
            SetQuestion [],
            SetLoading True,
            SetLoadingStep searching_label,
            FetchAsk (question s) (selectedVehicle s)])"

definition ask_catch :: "jsstring \<Rightarrow> nat \<Rightarrow> action list" where
  "ask_catch msg now =
     [ConsoleError api_error_label msg,
      AppendMessage (errorMessage msg now),
      SetLoading False,
      SetLoadingStep []]"

definition ask_fetched :: "fetch_result \<Rightarrow> nat \<Rightarrow> action list" where
  "ask_fetched r now =
     (case r of
        FetchRejected msg \<Rightarrow> ask_catch msg now
      | Responded status \<Rightarrow>
          SetLoadingStep generating_label #
          (if \<not> ok status then ask_catch (http_error_message status) now
           else [ReadJson]))"

definition ask_parsed :: "jsstring \<Rightarrow> body_result \<Rightarrow> nat \<Rightarrow> action list" where
  "ask_parsed tem b now =
     (case b of
        JsonRejected msg \<Rightarrow> ask_catch msg now
      | JsonParsed data \<Rightarrow>
          (case get_prop data (ascii ''answer'') of
             None \<Rightarrow> ask_catch tem now
           | Some answer \<Rightarrow>
               (case get_prop data (ascii ''sources'') of
                  None \<Rightarrow> ask_catch tem now
                | Some src \<Rightarrow>
                    [AppendMessage (botMessage answer src now),
                     SetLoading False,
                     SetLoadingStep []])))"

definition handleKeyPress :: "state \<Rightarrow> jsstring \<Rightarrow> bool \<Rightarrow> nat \<Rightarrow> action list" where
  "handleKeyPress s key shiftKey now =
     (if key = ascii ''Enter'' \<and> \<not> shiftKey then ask s now else [])"

section \<open>The controls that call the handlers\<close>

text \<open>
  The selection screen is rendered while \<open>vehicleSelectionStep\<close> holds, the chat screen
  otherwise. The selection screen shows one card for each entry of \<open>allVehicles\<close>; the
  model follows the cards whose entry is a string (a vehicle code). A card is there
  when \<open>allVehicles\<close> is an array with that entry and \<open>availableVehicles.includes\<close>
  does not throw. Its \<open>onClick\<close> is \<open>isAvailable && selectVehicle(vehicle)\<close>.
\<close>

definition isAvailable :: "state \<Rightarrow> jsstring \<Rightarrow> bool option" where
  "isAvailable s vehicle = js_includes (availableVehicles s) vehicle"

definition card_shown :: "state \<Rightarrow> jsstring \<Rightarrow> bool" where
  "card_shown s vehicle \<longleftrightarrow>
     vehicleSelectionStep s \<and>
     (case allVehicles s of JArr vs \<Rightarrow> JStr vehicle \<in> set vs | _ \<Rightarrow> False) \<and>
     isAvailable s vehicle \<noteq> None"

definition card_onClick :: "state \<Rightarrow> jsstring \<Rightarrow> nat \<Rightarrow> action list" where
  "card_onClick s vehicle now =
     (if isAvailable s vehicle = Some True then selectVehicle vehicle now else [])"

text \<open>
  On the chat screen the textarea has \<open>disabled={loading}\<close> and the send button has
  \<open>disabled={loading || !question.trim()}\<close>; a disabled control receives no key press
  and no click. The four quick-action buttons are never disabled.
\<close>

definition textarea_disabled :: "state \<Rightarrow> bool" where
  "textarea_disabled s \<longleftrightarrow> loading s"

definition send_disabled :: "state \<Rightarrow> bool" where
  "send_disabled s \<longleftrightarrow> loading s \<or> trim (question s) = []"

section \<open>Rendering\<close>

text \<open>
  \<open>App\<close> has no error boundary: when its render throws, React unmounts the root.

  The selection screen calls \<open>allVehicles.map\<close>, which throws unless \<open>allVehicles\<close> is
  an array; for each entry it calls \<open>availableVehicles.includes\<close>, which throws unless
  \<open>availableVehicles\<close> is an array or a string, and puts the entry into the card as a
  React child, which throws on an object (an array is rendered entry by entry); at the
  end it reads \<open>availableVehicles.length\<close>, which throws on \<open>null\<close> and \<open>undefined\<close>.

  The chat screen puts the content of a user message into the page as a React child and
  passes the content of a bot message to \<open>marked\<close>, which throws on anything but a
  string.
\<close>

fun react_child :: "jsval \<Rightarrow> bool" where
  "react_child (JObj kvs) = False"
| "react_child (JArr xs) = list_all react_child xs"
| "react_child v = True"

fun can_include :: "jsval \<Rightarrow> bool" where
  "can_include (JArr xs) = True"
| "can_include (JStr s) = True"
| "can_include v = False"

fun nullish :: "jsval \<Rightarrow> bool" where
  "nullish JUndefined = True"
| "nullish JNull = True"
| "nullish v = False"

definition selection_renders :: "state \<Rightarrow> bool" where
  "selection_renders s \<longleftrightarrow>
     (case allVehicles s of
        JArr vs \<Rightarrow>
          list_all react_child vs \<and>
          (vs = [] \<or> can_include (availableVehicles s)) \<and>
          \<not> nullish (availableVehicles s)
      | _ \<Rightarrow> False)"

fun marked_accepts :: "jsval \<Rightarrow> bool" where
  "marked_accepts (JStr md) = True"
| "marked_accepts v = False"

definition message_renders :: "message \<Rightarrow> bool" where
  "message_renders m =
     (case mtype m of
        User \<Rightarrow> react_child (content m)
      | Bot \<Rightarrow> marked_accepts (content m))"

definition chat_renders :: "state \<Rightarrow> bool" where
  "chat_renders s \<longleftrightarrow> list_all message_renders (messages s)"

definition renders :: "state \<Rightarrow> bool" where
  "renders s \<longleftrightarrow> (if vehicleSelectionStep s then selection_renders s else chat_renders s)"

section \<open>The running application\<close>

text \<open>
  The application is the state of the component, whether the root is still mounted,
  the invocations of \<open>ask\<close> that are suspended at an \<open>await\<close>, the progress of the one
  call of \<open>fetchVehicles\<close> made on mount, and everything the handlers have done so
  far. A suspended \<open>ask\<close> holds nothing of the state, so counting them is enough.
\<close>

datatype load_stage = LoadAwaitingResponse | LoadAwaitingBody | LoadDone

record config =
  ui :: state
  mounted :: bool
  awaiting_response :: nat
  awaiting_body :: nat
  catalog :: load_stage
  trace :: "action list"

definition init_config :: config where
  "init_config = \<lparr>ui = init_state, mounted = True, awaiting_response = 0, awaiting_body = 0,
                   catalog = LoadAwaitingResponse, trace = fetchVehicles\<rparr>"

definition perform :: "action list \<Rightarrow> config \<Rightarrow> config" where
  "perform acts c = c\<lparr>ui := run acts (ui c), trace := trace c @ acts\<rparr>"

text \<open>
  What can happen: the user clicks a card, clicks a "change vehicle" button (there on
  both screens), types into the textarea, clicks a quick action, clicks the send button
  or presses a key in the textarea; the network answers a pending request.
\<close>

datatype event =
    CardClick jsstring nat
  | ChangeVehicleClick
  | Typing jsstring
  | QuickAction quick
  | SendClick nat
  | KeyPress jsstring bool nat
  | AskResponse fetch_result nat
  | AskBody body_result nat
  | CatalogResponse fetch_result
  | CatalogBody body_result

definition start_ask :: "action list \<Rightarrow> config \<Rightarrow> config" where
  "start_ask acts c =
     (perform acts c)\<lparr>awaiting_response :=
        awaiting_response c + length (filter is_ask_request acts)\<rparr>"

text \<open>
  \<open>dispatch\<close> is what an event does to a mounted application: the handler runs if its
  control is there and enabled, a reply is taken by a suspended \<open>ask\<close> if there is one.
\<close>

fun dispatch :: "jsstring \<Rightarrow> event \<Rightarrow> config \<Rightarrow> config" where
  "dispatch tem (CardClick vehicle now) c =
     (if card_shown (ui c) vehicle then perform (card_onClick (ui c) vehicle now) c else c)"
| "dispatch tem ChangeVehicleClick c = perform changeVehicle c"
| "dispatch tem (Typing text) c =
     (if \<not> vehicleSelectionStep (ui c) \<and> \<not> textarea_disabled (ui c)
      then perform [SetQuestion text] c else c)"
| "dispatch tem (QuickAction q) c =
     (if \<not> vehicleSelectionStep (ui c) then perform [SetQuestion (quick_question q)] c else c)"
| "dispatch tem (SendClick now) c =
     (if \<not> vehicleSelectionStep (ui c) \<and> \<not> send_disabled (ui c)
      then start_ask (ask (ui c) now) c else c)"
| "dispatch tem (KeyPress key shiftKey now) c =
     (if \<not> vehicleSelectionStep (ui c) \<and> \<not> textarea_disabled (ui c)
      then start_ask (handleKeyPress (ui c) key shiftKey now) c else c)"
| "dispatch tem (AskResponse r now) c =
     (if awaiting_response c = 0 then c
      else (perform (ask_fetched r now) c)
             \<lparr>awaiting_response := awaiting_response c - 1,
              awaiting_body := awaiting_body c + count_list (ask_fetched r now) ReadJson\<rparr>)"
| "dispatch tem (AskBody b now) c =
     (if awaiting_body c = 0 then c
      else (perform (ask_parsed tem b now) c)\<lparr>awaiting_body := awaiting_body c - 1\<rparr>)"
| "dispatch tem (CatalogResponse r) c =
     (if catalog c \<noteq> LoadAwaitingResponse then c
      else (perform (fetchVehicles_fetched r) c)
             \<lparr>catalog := (if ReadJson \<in> set (fetchVehicles_fetched r)
                           then LoadAwaitingBody else LoadDone)\<rparr>)"
| "dispatch tem (CatalogBody b) c =
     (if catalog c \<noteq> LoadAwaitingBody then c
      else (perform (fetchVehicles_parsed tem b) c)\<lparr>catalog := LoadDone\<rparr>)"

text \<open>
  After the handler the component is rendered again if its state has changed. If that
  render throws, the root unmounts: nothing is shown any more, no control is left and
  no setter has an effect. The model stops there (what a suspended \<open>ask\<close> would still
  log is left out), keeping the state whose render threw.
\<close>

definition step :: "jsstring \<Rightarrow> event \<Rightarrow> config \<Rightarrow> config" where
  "step tem e c =
     (if \<not> mounted c then c
      else if ui (dispatch tem e c) = ui c \<or> renders (ui (dispatch tem e c))
           then dispatch tem e c
           else (dispatch tem e c)\<lparr>mounted := False\<rparr>)"

definition run_events :: "jsstring \<Rightarrow> event list \<Rightarrow> config" where
  "run_events tem es = fold (step tem) es init_config"

definition in_flight :: "config \<Rightarrow> nat" where
  "in_flight c = awaiting_response c + awaiting_body c"

text \<open>
  One submission from start to end with nothing in between: \<open>ask\<close>, the response (or
  the rejection) of \<open>fetch\<close>, and, when the status was a success, the parsed body (or
  the rejection) of \<open>res.json()\<close>. \<open>ask_rest\<close> is what \<open>ask\<close> does after its first
  \<open>await\<close>, the response arriving at time \<open>t1\<close> and the body at time \<open>t2\<close>.
\<close>

definition ask_rest ::
  "jsstring \<Rightarrow> fetch_result \<Rightarrow> body_result \<Rightarrow> nat \<Rightarrow> nat \<Rightarrow> action list" where
  "ask_rest tem r b t1 t2 =
     ask_fetched r t1 @
     (if ReadJson \<in> set (ask_fetched r t1) then ask_parsed tem b t2 else [])"

text \<open>
  A load of the catalog fails when \<open>fetch\<close> rejects or \<open>res.json()\<close> rejects;
  \<open>fetchVehicles_rest\<close> is what \<open>fetchVehicles\<close> does after its first \<open>await\<close>.
\<close>

definition fetchVehicles_rest :: "jsstring \<Rightarrow> fetch_result \<Rightarrow> body_result \<Rightarrow> action list" where
  "fetchVehicles_rest tem r b =
     fetchVehicles_fetched r @
     (if ReadJson \<in> set (fetchVehicles_fetched r) then fetchVehicles_parsed tem b else [])"

fun load_fails :: "fetch_result \<Rightarrow> body_result \<Rightarrow> bool" where
  "load_fails (FetchRejected msg) b = True"
| "load_fails (Responded status) (JsonRejected msg) = True"
| "load_fails (Responded status) (JsonParsed data) = False"

section \<open>Reading a transcript off a handler\<close>

text \<open>
  The messages a handler appends, in order, and whether an action replaces the whole
  transcript.
\<close>

fun appended :: "action list \<Rightarrow> message list" where
  "appended [] = []"
| "appended (AppendMessage m # acts) = m # appended acts"
| "appended (a # acts) = appended acts"

fun sets_messages :: "action \<Rightarrow> bool" where
  "sets_messages (SetMessages ms) = True"
| "sets_messages a = False"

section \<open>What holds of every configuration the application reaches\<close>

text \<open>
  The number of suspended \<open>ask\<close> invocations is one while \<open>loading\<close> holds and zero
  otherwise, and on the selection screen the transcript and the suspended invocations
  together count at most one. While the root is mounted, its state is one that renders.
\<close>

definition counting :: "config \<Rightarrow> bool" where
  "counting c \<longleftrightarrow>
     in_flight c = (if loading (ui c) then 1 else 0) \<and>
     (vehicleSelectionStep (ui c) \<longrightarrow> length (messages (ui c)) + in_flight c \<le> 1)"

definition consistent :: "config \<Rightarrow> bool" where
  "consistent c \<longleftrightarrow> counting c \<and> (mounted c \<longrightarrow> renders (ui c))"

section \<open>Sample runs\<close>

text \<open>
  A sample engine message, a run that selects SONATA and types a question, and a run in
  which the backend lists SONATA and TUCSON and marks only SONATA available.
\<close>

definition sample_tem :: jsstring where
  "sample_tem = ascii ''data is null''"

definition sample_ready :: "event list" where
  "sample_ready = [CardClick (ascii ''SONATA'') 1, Typing (ascii ''oil?'')]"

definition sample_catalog :: "event list" where
  "sample_catalog =
     [CatalogResponse (Responded 200),
      CatalogBody (JsonParsed (JObj
        [(ascii ''vehicles'', JArr [JStr (ascii ''SONATA''), JStr (ascii ''TUCSON'')]),
         (ascii ''available_vehicles'', JArr [JStr (ascii ''SONATA'')])]))]"

section \<open>Running action lists\<close>

lemma run_nil: "run [] s = s"
  by (simp add: run_def)

lemma run_Cons: "run (a # acts) s = run acts (exec a s)"
  by (simp add: run_def)

lemma run_append: "run (xs @ ys) s = run ys (run xs s)"
  by (simp add: run_def)

lemma appended_append: "appended (xs @ ys) = appended xs @ appended ys"
  by (induction xs rule: appended.induct) simp_all

lemma messages_run:
  "\<not> list_ex sets_messages acts \<Longrightarrow> messages (run acts s) = messages s @ appended acts"
proof (induction acts arbitrary: s)
  case Nil
  show ?case by (simp add: run_nil)
next
  case (Cons a acts)
  then show ?case by (cases a) (simp_all add: run_Cons)
qed

section \<open>The effect of each handler\<close>

lemma ask_catch_run:
  "run (ask_catch msg now) s =
     s\<lparr>messages := messages s @ [errorMessage msg now],
       loading := False, loadingStep := []\<rparr>"
  by (simp add: ask_catch_def run_Cons run_nil)

lemma ask_run:
  "run (ask s now) s' =
     (if trim (question s) = [] \<or> selectedVehicle s = [] then s'
      else s'\<lparr>messages := messages s' @ [userMessage (question s) now],
              question := [], loading := True, loadingStep := searching_label\<rparr>)"
  by (simp add: ask_def run_Cons run_nil)

lemma ask_requests:
  "length (filter is_ask_request (ask s now)) =
     (if trim (question s) = [] \<or> selectedVehicle s = [] then 0 else 1)"
  by (simp add: ask_def)

lemma ask_requests_nil:
  "filter is_ask_request (ask s now) = [] \<longleftrightarrow> trim (question s) = [] \<or> selectedVehicle s = []"
  by (simp add: ask_def)

lemma ask_appended:
  "appended (ask s now) =
     (if trim (question s) = [] \<or> selectedVehicle s = [] then []
      else [userMessage (question s) now])"
  by (simp add: ask_def)

lemma ask_plain: "\<not> list_ex sets_messages (ask s now)"
  by (simp add: ask_def)

lemma ask_fetched_run:
  "run (ask_fetched r t1) s =
     (case r of
        FetchRejected msg \<Rightarrow> run (ask_catch msg t1) s
      | Responded status \<Rightarrow>
          if ok status then s\<lparr>loadingStep := generating_label\<rparr>
          else run (ask_catch (http_error_message status) t1) s)"
  by (cases r) (simp_all add: ask_fetched_def run_Cons run_nil ask_catch_run)

lemma ask_fetched_reads:
  "count_list (ask_fetched r t1) ReadJson =
     (case r of FetchRejected msg \<Rightarrow> 0 | Responded status \<Rightarrow> if ok status then 1 else 0)"
  by (cases r) (simp_all add: ask_fetched_def ask_catch_def)

lemma ask_fetched_reads_set:
  "ReadJson \<in> set (ask_fetched r t1) \<longleftrightarrow>
     (case r of FetchRejected msg \<Rightarrow> False | Responded status \<Rightarrow> ok status)"
  by (cases r) (simp_all add: ask_fetched_def ask_catch_def)

lemma ask_parsed_appended:
  "\<exists>reply. appended (ask_parsed tem b now) = [reply] \<and> mtype reply = Bot \<and> timestamp reply = now"
  by (cases b) (auto simp add: ask_parsed_def ask_catch_def split: option.splits)

lemma ask_parsed_plain: "\<not> list_ex sets_messages (ask_parsed tem b now)"
  by (cases b) (auto simp add: ask_parsed_def ask_catch_def split: option.splits)

lemma ask_parsed_idle:
  "\<not> loading (run (ask_parsed tem b now) s) \<and> loadingStep (run (ask_parsed tem b now) s) = [] \<and>
   vehicleSelectionStep (run (ask_parsed tem b now) s) = vehicleSelectionStep s"
  by (cases b) (auto simp add: ask_parsed_def ask_catch_run run_Cons run_nil split: option.splits)

lemma ask_rest_appended:
  "\<exists>reply. appended (ask_rest tem r b t1 t2) = [reply] \<and> mtype reply = Bot"
proof (cases "ReadJson \<in> set (ask_fetched r t1)")
  case True
  then have "appended (ask_fetched r t1) = []"
    by (cases r) (auto simp add: ask_fetched_def ask_catch_def split: if_splits)
  moreover have "appended (xs @ ys) = appended xs @ appended ys" for xs ys
    by (induction xs rule: appended.induct) simp_all
  ultimately show ?thesis
    using True ask_parsed_appended [of tem b t2] by (auto simp add: ask_rest_def)
next
  case False
  then show ?thesis
    by (cases r) (auto simp add: ask_rest_def ask_fetched_def ask_catch_def split: if_splits)
qed

lemma ask_rest_plain: "\<not> list_ex sets_messages (ask_rest tem r b t1 t2)"
  using ask_parsed_plain [of tem b t2]
  by (cases r) (auto simp add: ask_rest_def ask_fetched_def ask_catch_def)

lemma ask_rest_idle:
  "\<not> loading (run (ask_rest tem r b t1 t2) s) \<and> loadingStep (run (ask_rest tem r b t1 t2) s) = []"
  by (cases r)
     (auto simp add: ask_rest_def run_append run_nil ask_fetched_run ask_fetched_reads_set ask_catch_run ask_parsed_idle)

lemma ask_rest_keeps:
  "vehicleSelectionStep (run (ask_rest tem r b t1 t2) s) = vehicleSelectionStep s \<and>
   selectedVehicle (run (ask_rest tem r b t1 t2) s) = selectedVehicle s \<and>
   allVehicles (run (ask_rest tem r b t1 t2) s) = allVehicles s \<and>
   availableVehicles (run (ask_rest tem r b t1 t2) s) = availableVehicles s"
proof -
  have "vehicleSelectionStep (run (ask_parsed tem b t2) s') = vehicleSelectionStep s' \<and>
      selectedVehicle (run (ask_parsed tem b t2) s') = selectedVehicle s' \<and>
      allVehicles (run (ask_parsed tem b t2) s') = allVehicles s' \<and>
      availableVehicles (run (ask_parsed tem b t2) s') = availableVehicles s'" for s'
    by (cases b)
       (auto simp add: ask_parsed_def ask_catch_run run_Cons run_nil split: option.splits)
  then show ?thesis
    by (cases r)
       (auto simp add: ask_rest_def run_append run_nil ask_fetched_run ask_fetched_reads_set
          ask_catch_run)
qed

lemma selectVehicle_run:
  "run (selectVehicle vehicle now) s =
     s\<lparr>selectedVehicle := vehicle, vehicleSelectionStep := False,
       messages := [\<lparr>mtype = Bot, content = JStr (welcome_text vehicle),
                     timestamp = now, sources = None\<rparr>]\<rparr>"
  by (simp add: selectVehicle_def run_Cons run_nil)

lemma changeVehicle_run:
  "run changeVehicle s =
     s\<lparr>vehicleSelectionStep := True, selectedVehicle := [], messages := [], question := []\<rparr>"
  by (simp add: changeVehicle_def run_Cons run_nil)

lemma fetchVehicles_fetched_run: "run (fetchVehicles_fetched r) s = s"
  by (cases r) (simp_all add: fetchVehicles_fetched_def run_Cons run_nil)

lemma fetchVehicles_parsed_keeps:
  "messages (run (fetchVehicles_parsed tem b) s) = messages s \<and>
   loading (run (fetchVehicles_parsed tem b) s) = loading s \<and>
   vehicleSelectionStep (run (fetchVehicles_parsed tem b) s) = vehicleSelectionStep s"
  by (cases b)
     (simp_all add: fetchVehicles_parsed_def run_Cons run_nil split: option.splits)

section \<open>The invariant\<close>

lemma no_room: "length (xs :: 'a list) + n \<le> Suc 0 \<Longrightarrow> 0 < n \<Longrightarrow> xs = []"
  by (cases xs) simp_all

lemma counting_init: "counting init_config"
  by (simp add: counting_def init_config_def init_state_def in_flight_def)

lemma renders_init: "renders init_state"
  by (simp add: renders_def selection_renders_def init_state_def default_codes_def)

lemma dispatch_counting:
  assumes "counting c"
  shows "counting (dispatch tem e c)"
proof (cases e)
  case (CardClick vehicle now)
  with assms show ?thesis
    by (auto simp add: counting_def in_flight_def perform_def card_onClick_def
        card_shown_def selectVehicle_run run_nil split: if_splits)
next
  case ChangeVehicleClick
  with assms show ?thesis
    by (auto simp add: counting_def in_flight_def perform_def changeVehicle_run split: if_splits)
next
  case (Typing draft)
  with assms show ?thesis
    by (auto simp add: counting_def in_flight_def perform_def run_Cons run_nil split: if_splits)
next
  case (QuickAction q)
  with assms show ?thesis
    by (auto simp add: counting_def in_flight_def perform_def run_Cons run_nil split: if_splits)
next
  case (SendClick now)
  with assms show ?thesis
    by (auto simp add: counting_def in_flight_def perform_def start_ask_def send_disabled_def
        ask_run ask_requests ask_requests_nil split: if_splits)
next
  case (KeyPress key shiftKey now)
  with assms show ?thesis
    by (auto simp add: counting_def in_flight_def perform_def start_ask_def textarea_disabled_def
        handleKeyPress_def ask_run ask_requests ask_requests_nil run_nil split: if_splits)
next
  case (AskResponse r now)
  with assms show ?thesis
    by (cases r)
       (auto simp add: counting_def in_flight_def perform_def ask_fetched_run
          ask_fetched_reads ask_catch_run split: if_splits dest: no_room)
next
  case (AskBody b now)
  obtain reply where "appended (ask_parsed tem b now) = [reply]"
    using ask_parsed_appended [of tem b now] by blast
  then have "length (messages (run (ask_parsed tem b now) (ui c))) = Suc (length (messages (ui c)))"
    by (simp add: messages_run ask_parsed_plain)
  with assms AskBody show ?thesis
    by (auto simp add: counting_def in_flight_def perform_def ask_parsed_idle
        split: if_splits dest: no_room)
next
  case (CatalogResponse r)
  with assms show ?thesis
    by (auto simp add: counting_def in_flight_def perform_def fetchVehicles_fetched_run split: if_splits)
next
  case (CatalogBody b)
  with assms show ?thesis
    by (auto simp add: counting_def in_flight_def perform_def fetchVehicles_parsed_keeps split: if_splits)
qed

lemma dispatch_mounted: "mounted (dispatch tem e c) = mounted c"
  by (cases e) (simp_all add: perform_def start_ask_def)

section \<open>One submission, event by event\<close>

lemma after_send:
  assumes "counting c" "\<not> vehicleSelectionStep (ui c)" "\<not> send_disabled (ui c)"
    "selectedVehicle (ui c) \<noteq> []"
  shows "ui (dispatch tem (SendClick now) c) = run (ask (ui c) now) (ui c) \<and>
         awaiting_response (dispatch tem (SendClick now) c) = 1 \<and>
         awaiting_body (dispatch tem (SendClick now) c) = 0"
  using assms
  by (auto simp add: counting_def in_flight_def send_disabled_def start_ask_def perform_def
      ask_requests split: if_splits)

lemma after_change:
  "ui (dispatch tem ChangeVehicleClick c) = run changeVehicle (ui c) \<and>
   awaiting_response (dispatch tem ChangeVehicleClick c) = awaiting_response c \<and>
   awaiting_body (dispatch tem ChangeVehicleClick c) = awaiting_body c"
  by (simp add: perform_def)

lemma after_response:
  assumes "awaiting_response c = 1" "awaiting_body c = 0"
  shows "ui (dispatch tem (AskResponse r t1) c) = run (ask_fetched r t1) (ui c) \<and>
         awaiting_response (dispatch tem (AskResponse r t1) c) = 0 \<and>
         awaiting_body (dispatch tem (AskResponse r t1) c) =
           (if ReadJson \<in> set (ask_fetched r t1) then 1 else 0)"
  using assms
  by (cases r) (auto simp add: perform_def ask_fetched_reads ask_fetched_reads_set)

lemma after_body:
  "ui (dispatch tem (AskBody b t2) c) =
     (if awaiting_body c = 0 then ui c else run (ask_parsed tem b t2) (ui c))"
  by (simp add: perform_def)

lemma dispatch_fetches_nothing:
  "count_list (trace (dispatch tem e c)) FetchVehicles = count_list (trace c) FetchVehicles"
proof (cases e)
  case (AskResponse r now)
  then show ?thesis
    by (cases r) (simp_all add: perform_def ask_fetched_def ask_catch_def)
next
  case (AskBody b now)
  then show ?thesis
    by (cases b) (simp_all add: perform_def ask_parsed_def ask_catch_def split: option.splits)
next
  case (CatalogResponse r)
  then show ?thesis
    by (cases r) (simp_all add: perform_def fetchVehicles_fetched_def)
next
  case (CatalogBody b)
  then show ?thesis
    by (cases b) (simp_all add: perform_def fetchVehicles_parsed_def split: option.splits)
qed (simp_all add: perform_def start_ask_def card_onClick_def selectVehicle_def changeVehicle_def
      handleKeyPress_def ask_def)

declare dispatch.simps [simp del]

lemma round_trip:
  assumes "awaiting_response c = 1" "awaiting_body c = 0"
  shows "ui (dispatch tem (AskBody b t2) (dispatch tem (AskResponse r t1) c)) =
           run (ask_rest tem r b t1 t2) (ui c)"
  using after_response [OF assms, of tem r t1]
  by (simp add: after_body ask_rest_def run_append run_nil)

section \<open>Steps keep the invariant\<close>

lemma step_live:
  "mounted c \<Longrightarrow> renders (ui (dispatch tem e c)) \<Longrightarrow> step tem e c = dispatch tem e c"
  by (simp add: step_def)

lemma step_idle: "dispatch tem e c = c \<Longrightarrow> step tem e c = c"
  by (simp add: step_def)

lemma step_consistent:
  assumes "consistent c"
  shows "consistent (step tem e c)"
proof -
  have "counting (dispatch tem e c)"
    using assms by (simp add: consistent_def dispatch_counting)
  moreover have "counting (d\<lparr>mounted := False\<rparr>) = counting d" for d
    by (simp add: counting_def in_flight_def)
  ultimately show ?thesis
    using assms by (auto simp add: step_def consistent_def dispatch_mounted)
qed

lemma run_events_snoc: "run_events tem (es @ [e]) = step tem e (run_events tem es)"
  by (simp add: run_events_def)

lemma consistent_run_events: "consistent (run_events tem es)"
proof (induction es rule: rev_induct)
  case Nil
  have "ui init_config = init_state"
    by (simp add: init_config_def)
  then show ?case
    using counting_init renders_init by (simp add: run_events_def consistent_def)
next
  case (snoc e es)
  then show ?case by (simp add: run_events_snoc step_consistent)
qed

lemma step_fetches_nothing:
  "count_list (trace (step tem e c)) FetchVehicles = count_list (trace c) FetchVehicles"
  by (simp add: step_def dispatch_fetches_nothing)

lemma fetched_once: "count_list (trace (run_events tem es)) FetchVehicles = 1"
proof (induction es rule: rev_induct)
  case Nil
  show ?case by (simp add: run_events_def init_config_def fetchVehicles_def)
next
  case (snoc e es)
  then show ?case by (simp add: run_events_snoc step_fetches_nothing)
qed

section \<open>What a handler leaves of the screen\<close>

lemma selection_renders_catalog:
  "allVehicles s' = allVehicles s \<Longrightarrow> availableVehicles s' = availableVehicles s \<Longrightarrow>
   selection_renders s' = selection_renders s"
  by (simp add: selection_renders_def split: jsval.splits)

lemma ask_keeps:
  "vehicleSelectionStep (run (ask s' now) s) = vehicleSelectionStep s \<and>
   allVehicles (run (ask s' now) s) = allVehicles s \<and>
   availableVehicles (run (ask s' now) s) = availableVehicles s"
  by (simp add: ask_run)

lemma ask_fetched_keeps:
  "vehicleSelectionStep (run (ask_fetched r t1) s) = vehicleSelectionStep s \<and>
   selectedVehicle (run (ask_fetched r t1) s) = selectedVehicle s \<and>
   allVehicles (run (ask_fetched r t1) s) = allVehicles s \<and>
   availableVehicles (run (ask_fetched r t1) s) = availableVehicles s"
  by (cases r) (simp_all add: ask_fetched_run ask_catch_run)

lemma chat_renders_ask:
  "chat_renders s \<Longrightarrow> chat_renders (run (ask s' now) s)"
  by (simp add: chat_renders_def messages_run ask_plain ask_appended message_renders_def)

section \<open>The sample runs, evaluated\<close>

lemmas eval_defs =
  run_events_def init_config_def init_state_def card_shown_def isAvailable_def
  default_codes_def perform_def card_onClick_def run_Cons run_nil
  textarea_disabled_def send_disabled_def start_ask_def ask_def fetchVehicles_def
  trim_def js_whitespace_def ascii_def selectVehicle_def changeVehicle_def
  ask_fetched_def ask_parsed_def ask_catch_def ok_def handleKeyPress_def
  fetchVehicles_fetched_def fetchVehicles_parsed_def in_flight_def
  step_def dispatch.simps renders_def chat_renders_def selection_renders_def message_renders_def

lemma sample_ready_ui:
  "ui (run_events sample_tem sample_ready) =
     \<lparr>question = ascii ''oil?'', selectedVehicle = ascii ''SONATA'',
      availableVehicles = JArr (map JStr default_codes),
      allVehicles = JArr (map JStr default_codes),
      vehicleSelectionStep = False,
      messages = [\<lparr>mtype = Bot, content = JStr (welcome_text (ascii ''SONATA'')),
                    timestamp = 1, sources = None\<rparr>],
      loading = False, loadingStep = []\<rparr>"
  by (simp add: sample_ready_def eval_defs)

lemma sample_ready_facts:
  "\<not> vehicleSelectionStep (ui (run_events sample_tem sample_ready))"
  "\<not> send_disabled (ui (run_events sample_tem sample_ready))"
  "selectedVehicle (ui (run_events sample_tem sample_ready)) \<noteq> []"
  "trim (question (ui (run_events sample_tem sample_ready))) \<noteq> []"
  by (simp_all add: sample_ready_ui send_disabled_def trim_def js_whitespace_def ascii_def)

lemma sample_ready_live:
  "mounted (run_events sample_tem sample_ready)"
  "selection_renders (ui (run_events sample_tem sample_ready))"
  by (simp_all add: sample_ready_def eval_defs)

lemma sample_loading_ui:
  "ui (run_events sample_tem (sample_ready @ [SendClick 2, QuickAction Battery])) =
     \<lparr>question = quick_question Battery, selectedVehicle = ascii ''SONATA'',
      availableVehicles = JArr (map JStr default_codes),
      allVehicles = JArr (map JStr default_codes),
      vehicleSelectionStep = False,
      messages = [\<lparr>mtype = Bot, content = JStr (welcome_text (ascii ''SONATA'')),
                    timestamp = 1, sources = None\<rparr>,
                  userMessage (ascii ''oil?'') 2],
      loading = True, loadingStep = searching_label\<rparr>"
  by (simp add: sample_ready_def eval_defs)

lemma sample_catalog_ui:
  "ui (run_events sample_tem sample_catalog) =
     init_state\<lparr>allVehicles := JArr [JStr (ascii ''SONATA''), JStr (ascii ''TUCSON'')],
                availableVehicles := JArr [JStr (ascii ''SONATA'')]\<rparr>"
  by (simp add: sample_catalog_def eval_defs)

section \<open>Stale replies\<close>

text \<open>
  C1 (as amended). The component has no staleness check. Take a reachable state of the
  mounted component on the chat screen, with the send button enabled and a vehicle
  selected, whose catalog the selection screen can render. When the question is
  submitted, "change vehicle" is clicked after the request went out and before its
  response arrives, and the response (then the body) arrives, the bot message built
  from that response is appended to the transcript that the reset had emptied:
  afterwards the transcript is exactly that one message, on the selection screen, with
  no vehicle selected, and the component is still mounted.
\<close>

theorem stale_reply_is_appended:
  assumes "c = run_events tem es" "mounted c" "\<not> vehicleSelectionStep (ui c)"
    "\<not> send_disabled (ui c)" "selectedVehicle (ui c) \<noteq> []" "selection_renders (ui c)"
    and "c' = step tem (AskBody b t2) (step tem (AskResponse r t1)
               (step tem ChangeVehicleClick (step tem (SendClick now) c)))"
  shows "\<exists>reply. mtype reply = Bot \<and>
           AppendMessage reply \<in> set (ask_rest tem r b t1 t2) \<and>
           messages (ui c') = [reply] \<and>
           vehicleSelectionStep (ui c') \<and> selectedVehicle (ui c') = [] \<and> mounted c'"
proof -
  have "consistent c"
    using assms(1) by (simp add: consistent_run_events)
  then have counting: "counting c" and chat: "chat_renders (ui c)"
    using assms(2,3) by (simp_all add: consistent_def renders_def)
  let ?d1 = "dispatch tem (SendClick now) c"
  let ?d2 = "dispatch tem ChangeVehicleClick ?d1"
  let ?d3 = "dispatch tem (AskResponse r t1) ?d2"
  let ?d4 = "dispatch tem (AskBody b t2) ?d3"
  have d1: "ui ?d1 = run (ask (ui c) now) (ui c)" "awaiting_response ?d1 = 1" "awaiting_body ?d1 = 0"
    using after_send [OF counting assms(3-5), of tem now] by simp_all
  have "renders (ui ?d1)"
    using chat assms(3) by (simp add: d1(1) renders_def ask_keeps chat_renders_ask)
  then have s1: "step tem (SendClick now) c = ?d1"
    using assms(2) by (simp add: step_live)
  have d2: "ui ?d2 = run changeVehicle (ui ?d1)" "awaiting_response ?d2 = 1" "awaiting_body ?d2 = 0"
    using after_change [of tem ?d1] d1(2,3) by simp_all
  have reset: "messages (ui ?d2) = []" "vehicleSelectionStep (ui ?d2)" "selectedVehicle (ui ?d2) = []"
    "allVehicles (ui ?d2) = allVehicles (ui c)" "availableVehicles (ui ?d2) = availableVehicles (ui c)"
    by (simp_all add: d2(1) changeVehicle_run d1(1) ask_keeps)
  have shown: "selection_renders (ui ?d2)"
    using reset(4,5) assms(6) selection_renders_catalog [of "ui ?d2" "ui c"] by simp
  then have s2: "step tem ChangeVehicleClick ?d1 = ?d2"
    using assms(2) reset(2) by (simp add: step_live dispatch_mounted renders_def)
  have d3: "ui ?d3 = run (ask_fetched r t1) (ui ?d2)"
    using after_response [OF d2(2,3), of tem r t1] by simp
  have "renders (ui ?d3)"
    using reset(2) shown
      selection_renders_catalog [of "run (ask_fetched r t1) (ui ?d2)" "ui ?d2"]
    by (simp add: d3 renders_def ask_fetched_keeps)
  then have s3: "step tem (AskResponse r t1) ?d2 = ?d3"
    using assms(2) by (simp add: step_live dispatch_mounted)
  have d4: "ui ?d4 = run (ask_rest tem r b t1 t2) (ui ?d2)"
    using d2(2,3) by (rule round_trip)
  have kept: "vehicleSelectionStep (ui ?d4)" "selectedVehicle (ui ?d4) = []"
    "allVehicles (ui ?d4) = allVehicles (ui ?d2)"
    "availableVehicles (ui ?d4) = availableVehicles (ui ?d2)"
    using reset(2,3) ask_rest_keeps [of tem r b t1 t2 "ui ?d2"] by (simp_all add: d4)
  then have "renders (ui ?d4)"
    using shown selection_renders_catalog [of "ui ?d4" "ui ?d2"] by (simp add: renders_def)
  then have s4: "step tem (AskBody b t2) ?d3 = ?d4"
    using assms(2) by (simp add: step_live dispatch_mounted)
  have c': "c' = ?d4"
    using assms(7) by (simp add: s1 s2 s3 s4)
  obtain reply where reply: "appended (ask_rest tem r b t1 t2) = [reply]" "mtype reply = Bot"
    using ask_rest_appended [of tem r b t1 t2] by blast
  have "m \<in> set (appended acts) \<Longrightarrow> AppendMessage m \<in> set acts" for m acts
    by (induction acts rule: appended.induct) auto
  then have "AppendMessage reply \<in> set (ask_rest tem r b t1 t2)"
    using reply(1) by simp
  moreover have "messages (ui c') = [reply]"
    using reset(1) reply(1) by (simp add: c' d4 messages_run ask_rest_plain)
  moreover have "vehicleSelectionStep (ui c')" "selectedVehicle (ui c') = []" "mounted c'"
    using kept(1,2) assms(2) by (simp_all add: c' dispatch_mounted)
  ultimately show ?thesis
    using reply(2) by blast
qed

theorem stale_reply_is_appended_witness:
  "mounted (run_events sample_tem sample_ready) \<and>
   \<not> vehicleSelectionStep (ui (run_events sample_tem sample_ready)) \<and>
   \<not> send_disabled (ui (run_events sample_tem sample_ready)) \<and>
   selectedVehicle (ui (run_events sample_tem sample_ready)) \<noteq> [] \<and>
   selection_renders (ui (run_events sample_tem sample_ready)) \<and>
   (\<exists>reply. mtype reply = Bot \<and>
      AppendMessage reply \<in> set (ask_rest sample_tem (Responded 500) (JsonRejected []) 3 4) \<and>
      messages (ui (step sample_tem (AskBody (JsonRejected []) 4)
        (step sample_tem (AskResponse (Responded 500) 3)
          (step sample_tem ChangeVehicleClick
            (step sample_tem (SendClick 2) (run_events sample_tem sample_ready)))))) = [reply])"
  using stale_reply_is_appended [OF refl sample_ready_live(1) sample_ready_facts(1-3)
      sample_ready_live(2) refl,
      where r = "Responded 500" and b = "JsonRejected []" and ?t1.0 = 3 and ?t2.0 = 4 and now = 2]
    sample_ready_facts(1-3) sample_ready_live
  by blast

text \<open>
  The claim as stated fails: SONATA is selected, a question is sent, the vehicle is
  changed, and then the answer arrives. The answer is the only message of the new
  session, which is on the selection screen.
\<close>

theorem stale_reply_counterexample:
  "messages (ui (run_events sample_tem
      [CardClick (ascii ''SONATA'') 1, Typing (ascii ''oil?''), SendClick 2,
       ChangeVehicleClick,
       AskResponse (Responded 200) 3,
       AskBody (JsonParsed (JObj [(ascii ''answer'', JStr (ascii ''Drain it.''))])) 4])) =
     [\<lparr>mtype = Bot, content = JStr (ascii ''Drain it.''), timestamp = 4,
       sources = Some (JArr [])\<rparr>] \<and>
   vehicleSelectionStep (ui (run_events sample_tem
      [CardClick (ascii ''SONATA'') 1, Typing (ascii ''oil?''), SendClick 2,
       ChangeVehicleClick,
       AskResponse (Responded 200) 3,
       AskBody (JsonParsed (JObj [(ascii ''answer'', JStr (ascii ''Drain it.''))])) 4]))"
  by (simp add: eval_defs)

text \<open>
  The catalog matters: \<open>fetchVehicles\<close> does not look at \<open>res.ok\<close>, so an error status
  with a JSON body leaves \<open>allVehicles\<close> undefined. The chat screen does not read it,
  but the click on "change vehicle" then renders the selection screen, which throws.
\<close>

lemma change_vehicle_on_broken_catalog:
  "mounted (run_events sample_tem
      [CardClick (ascii ''SONATA'') 1,
       CatalogResponse (Responded 404),
       CatalogBody (JsonParsed (JObj [(ascii ''detail'', JStr (ascii ''Not Found''))]))]) \<and>
   \<not> mounted (run_events sample_tem
      [CardClick (ascii ''SONATA'') 1,
       CatalogResponse (Responded 404),
       CatalogBody (JsonParsed (JObj [(ascii ''detail'', JStr (ascii ''Not Found''))])),
       ChangeVehicleClick])"
  by (simp add: eval_defs)

section \<open>One query in flight\<close>

text \<open>
  C2 (as amended). \<open>ask\<close> and \<open>handleKeyPress\<close> do not look at \<open>loading\<close>; the
  controls do. In every configuration the application reaches, at most one query is in
  flight, one is in flight exactly while \<open>loading\<close> holds, and while it holds a click
  on the send button and a key press in the textarea change nothing: no state change
  and no further request.
\<close>

theorem controls_gate_submission:
  assumes "c = run_events tem es"
  shows "in_flight c \<le> 1 \<and>
         (loading (ui c) \<longleftrightarrow> in_flight c = 1) \<and>
         (loading (ui c) \<longrightarrow>
            step tem (SendClick now) c = c \<and> step tem (KeyPress key shiftKey now) c = c)"
proof -
  have "consistent c"
    using assms by (simp add: consistent_run_events)
  then have "in_flight c = (if loading (ui c) then 1 else 0)"
    by (simp add: consistent_def counting_def)
  moreover have "dispatch tem (SendClick now) c = c" "dispatch tem (KeyPress key shiftKey now) c = c"
    if "loading (ui c)"
    using that by (simp_all add: dispatch.simps send_disabled_def textarea_disabled_def)
  ultimately show ?thesis
    by (auto simp add: step_idle split: if_splits)
qed

theorem controls_gate_submission_witness:
  "loading (ui (run_events sample_tem (sample_ready @ [SendClick 2]))) \<and>
   in_flight (run_events sample_tem (sample_ready @ [SendClick 2])) = 1 \<and>
   step sample_tem (SendClick 3) (run_events sample_tem (sample_ready @ [SendClick 2])) =
     run_events sample_tem (sample_ready @ [SendClick 2]) \<and>
   step sample_tem (KeyPress (ascii ''Enter'') False 3)
       (run_events sample_tem (sample_ready @ [SendClick 2])) =
     run_events sample_tem (sample_ready @ [SendClick 2])"
proof -
  have "loading (ui (run_events sample_tem (sample_ready @ [SendClick 2])))"
    by (simp add: sample_ready_def eval_defs)
  then show ?thesis
    using controls_gate_submission [OF refl, of sample_tem "sample_ready @ [SendClick 2]" 3
        "ascii ''Enter''" False]
    by blast
qed

text \<open>
  The claim as stated fails for \<open>ask\<close> itself: while the first query is in flight a
  quick action fills the draft, and \<open>ask\<close>, called in that state, appends a second
  user message and issues a second request.
\<close>

theorem ask_not_gated_counterexample:
  "loading (ui (run_events sample_tem
      [CardClick (ascii ''SONATA'') 1, Typing (ascii ''oil?''), SendClick 2, QuickAction Battery])) \<and>
   ask (ui (run_events sample_tem
      [CardClick (ascii ''SONATA'') 1, Typing (ascii ''oil?''), SendClick 2, QuickAction Battery])) 3 =
     [AppendMessage (userMessage (quick_question Battery) 3),
      SetQuestion [], SetLoading True, SetLoadingStep searching_label,
      FetchAsk (quick_question Battery) (ascii ''SONATA'')]"
  using sample_loading_ui
  by (simp add: sample_ready_def ask_def trim_def js_whitespace_def ascii_def)

section \<open>The transcript grows by two\<close>

text \<open>
  The setter calls of \<open>ask\<close>: called with a draft that is not blank and a vehicle
  selected, it appends the user message with the question and then, whatever the
  backend does, exactly one bot message.
\<close>

lemma ask_appends_two:
  assumes "trim (question s) \<noteq> []" "selectedVehicle s \<noteq> []"
  shows "\<exists>reply. mtype reply = Bot \<and>
           messages (run (ask_rest tem r b t1 t2) (run (ask s now) s)) =
             messages s @ [userMessage (question s) now, reply]"
proof -
  obtain reply where "appended (ask_rest tem r b t1 t2) = [reply]" "mtype reply = Bot"
    using ask_rest_appended [of tem r b t1 t2] by blast
  then show ?thesis
    using assms by (simp add: messages_run ask_rest_plain ask_plain ask_appended)
qed

text \<open>
  C3 (where the code departs from it). \<open>ask\<close> does not check that the body has an
  answer. SONATA is selected and a question is sent; the backend answers with status 200
  and the body \<open>{}\<close>. Up to the response the component is mounted. The bot message
  that \<open>ask\<close> then appends has content \<open>undefined\<close>; the render of the chat screen
  passes it to \<open>marked\<close>, which throws, and the root unmounts: there is no transcript
  any more, where the claim has the old one, the question and one bot message. With a
  body that has an answer the component stays mounted and the transcript has grown by
  two.
\<close>

theorem reply_without_answer_unmounts:
  "mounted (run_events sample_tem
      [CardClick (ascii ''SONATA'') 1, Typing (ascii ''oil?''), SendClick 2,
       AskResponse (Responded 200) 3]) \<and>
   \<not> mounted (run_events sample_tem
      [CardClick (ascii ''SONATA'') 1, Typing (ascii ''oil?''), SendClick 2,
       AskResponse (Responded 200) 3,
       AskBody (JsonParsed (JObj [])) 4]) \<and>
   messages (ui (run_events sample_tem
      [CardClick (ascii ''SONATA'') 1, Typing (ascii ''oil?''), SendClick 2,
       AskResponse (Responded 200) 3,
       AskBody (JsonParsed (JObj [])) 4])) =
     [\<lparr>mtype = Bot, content = JStr (welcome_text (ascii ''SONATA'')), timestamp = 1,
        sources = None\<rparr>,
      userMessage (ascii ''oil?'') 2,
      \<lparr>mtype = Bot, content = JUndefined, timestamp = 4, sources = Some (JArr [])\<rparr>] \<and>
   mounted (run_events sample_tem
      [CardClick (ascii ''SONATA'') 1, Typing (ascii ''oil?''), SendClick 2,
       AskResponse (Responded 200) 3,
       AskBody (JsonParsed (JObj [(ascii ''answer'', JStr (ascii ''Drain it.''))])) 4]) \<and>
   messages (ui (run_events sample_tem
      [CardClick (ascii ''SONATA'') 1, Typing (ascii ''oil?''), SendClick 2,
       AskResponse (Responded 200) 3,
       AskBody (JsonParsed (JObj [(ascii ''answer'', JStr (ascii ''Drain it.''))])) 4])) =
     [\<lparr>mtype = Bot, content = JStr (welcome_text (ascii ''SONATA'')), timestamp = 1,
        sources = None\<rparr>,
      userMessage (ascii ''oil?'') 2,
      \<lparr>mtype = Bot, content = JStr (ascii ''Drain it.''), timestamp = 4,
        sources = Some (JArr [])\<rparr>]"
  by (simp add: eval_defs)

section \<open>A body without an answer\<close>

text \<open>
  What \<open>ask\<close> does with a body. A body that is not JSON, and the body \<open>null\<close>, end
  in the \<open>catch\<close> block. Every other body is taken as a success: the bot message is
  built from whatever \<open>data.answer\<close> and \<open>data.sources\<close> are.
\<close>

lemma ask_parsed_failure:
  "ask_parsed tem (JsonRejected msg) now = ask_catch msg now \<and>
   ask_parsed tem (JsonParsed JNull) now = ask_catch tem now"
  by (simp add: ask_parsed_def)

lemma ask_parsed_success:
  assumes "get_prop data (ascii ''answer'') = Some answer"
    and "get_prop data (ascii ''sources'') = Some src"
  shows "ask_parsed tem (JsonParsed data) now =
           [AppendMessage (botMessage answer src now), SetLoading False, SetLoadingStep []]"
  using assms by (simp add: ask_parsed_def)

text \<open>
  C4 (where the code departs from it). The backend answers with status 200 and the body
  \<open>{}\<close>. \<open>ask\<close> does not go to its \<open>catch\<close> block: it appends a bot message with
  content \<open>undefined\<close> and sources \<open>[]\<close>, clears \<open>loading\<close> and empties the loading
  step. That message cannot be rendered: \<open>marked\<close> throws on it. On status 500 \<open>ask\<close>
  sets the "generating" step, logs, appends the error text followed by the reason, a
  message that renders, and ends the same way.
\<close>

theorem body_without_answer_is_no_error:
  "ask_parsed sample_tem (JsonParsed (JObj [])) 4 =
     [AppendMessage \<lparr>mtype = Bot, content = JUndefined, timestamp = 4,
                     sources = Some (JArr [])\<rparr>,
      SetLoading False, SetLoadingStep []] \<and>
   message_renders \<lparr>mtype = Bot, content = JUndefined, timestamp = 4,
                    sources = Some (JArr [])\<rparr> = False \<and>
   ask_fetched (Responded 500) 4 =
     [SetLoadingStep generating_label,
      ConsoleError api_error_label (ascii ''HTTP error! status: 500''),
      AppendMessage (errorMessage (ascii ''HTTP error! status: 500'') 4),
      SetLoading False, SetLoadingStep []] \<and>
   message_renders (errorMessage (ascii ''HTTP error! status: 500'') 4)"
  by (simp add: ask_parsed_def ask_fetched_def ask_catch_def ok_def message_renders_def
      http_error_message_def decimal.simps ascii_def)

section \<open>Selecting a vehicle that is not available\<close>

text \<open>
  C5 (as amended). \<open>selectVehicle\<close> does not look at the available set; the card's
  click handler does. A click on the card of a vehicle that \<open>availableVehicles\<close> does
  not include calls nothing and leaves the whole configuration as it was.
\<close>

theorem unavailable_card_is_inert:
  assumes "isAvailable (ui c) vehicle \<noteq> Some True"
  shows "card_onClick (ui c) vehicle now = [] \<and> step tem (CardClick vehicle now) c = c"
proof -
  have "card_onClick (ui c) vehicle now = []"
    using assms by (simp add: card_onClick_def)
  moreover from this have "dispatch tem (CardClick vehicle now) c = c"
    by (simp add: dispatch.simps perform_def run_nil)
  ultimately show ?thesis
    by (simp add: step_idle)
qed

theorem unavailable_card_is_inert_witness:
  "isAvailable (ui (run_events sample_tem sample_catalog)) (ascii ''TUCSON'') \<noteq> Some True \<and>
   card_shown (ui (run_events sample_tem sample_catalog)) (ascii ''TUCSON'') \<and>
   step sample_tem (CardClick (ascii ''TUCSON'') 1) (run_events sample_tem sample_catalog) =
     run_events sample_tem sample_catalog"
proof -
  have "isAvailable (ui (run_events sample_tem sample_catalog)) (ascii ''TUCSON'') \<noteq> Some True"
    "card_shown (ui (run_events sample_tem sample_catalog)) (ascii ''TUCSON'')"
    by (simp_all add: sample_catalog_ui isAvailable_def card_shown_def init_state_def ascii_def)
  then show ?thesis
    using unavailable_card_is_inert [of "run_events sample_tem sample_catalog" "ascii ''TUCSON''"
        1 sample_tem]
    by blast
qed

text \<open>
  The claim as stated fails for \<open>selectVehicle\<close> itself: with only SONATA available,
  \<open>selectVehicle\<close> on TUCSON enters the chat screen with TUCSON selected and a
  welcome message.
\<close>

theorem selectVehicle_counterexample:
  "isAvailable (ui (run_events sample_tem sample_catalog)) (ascii ''TUCSON'') = Some False \<and>
   \<not> vehicleSelectionStep
      (run (selectVehicle (ascii ''TUCSON'') 1) (ui (run_events sample_tem sample_catalog))) \<and>
   selectedVehicle
      (run (selectVehicle (ascii ''TUCSON'') 1) (ui (run_events sample_tem sample_catalog))) =
     ascii ''TUCSON'' \<and>
   length (messages
      (run (selectVehicle (ascii ''TUCSON'') 1) (ui (run_events sample_tem sample_catalog)))) = 1"
  by (simp add: sample_catalog_ui selectVehicle_run isAvailable_def init_state_def ascii_def)

section \<open>changeVehicle\<close>

text \<open>
  C6. From every state, \<open>changeVehicle\<close> leads to the selection screen with no selected
  vehicle, no messages and an empty draft question.
\<close>

theorem changeVehicle_resets:
  "vehicleSelectionStep (run changeVehicle s) \<and>
   selectedVehicle (run changeVehicle s) = [] \<and>
   messages (run changeVehicle s) = [] \<and>
   question (run changeVehicle s) = []"
  by (simp add: changeVehicle_def run_Cons run_nil)

section \<open>The question is shown first\<close>

text \<open>
  C7. When the draft is not blank and a vehicle is selected, \<open>ask\<close> issues its request
  only after it has appended the user message carrying the draft and cleared the draft,
  with no network activity before; and whatever the backend does afterwards, that user
  message is still in the transcript.
\<close>

theorem question_shown_before_request:
  assumes "trim (question s) \<noteq> []" "selectedVehicle s \<noteq> []"
  shows "\<exists>before after.
           ask s now = before @ FetchAsk (question s) (selectedVehicle s) # after \<and>
           \<not> list_ex is_network before \<and>
           messages (run before s) = messages s @
             [userMessage (question s) now] \<and>
           question (run before s) = [] \<and>
           userMessage (question s) now
             \<in> set (messages (run (ask_rest tem r b t1 t2) (run (ask s now) s)))"
proof -
  let ?u = "userMessage (question s) now"
  let ?before = "[AppendMessage ?u, SetQuestion [], SetLoading True, SetLoadingStep searching_label]"
  have "ask s now = ?before @ FetchAsk (question s) (selectedVehicle s) # []"
    using assms by (simp add: ask_def)
  moreover have "\<not> list_ex is_network ?before"
    by simp
  moreover have "messages (run ?before s) = messages s @ [?u]" "question (run ?before s) = []"
    by (simp_all add: run_Cons run_nil)
  moreover have "?u \<in> set (messages (run (ask_rest tem r b t1 t2) (run (ask s now) s)))"
    using assms by (simp add: messages_run ask_rest_plain ask_plain ask_appended)
  ultimately show ?thesis by blast
qed

theorem question_shown_before_request_witness:
  "trim (question (ui (run_events sample_tem sample_ready))) \<noteq> [] \<and>
   selectedVehicle (ui (run_events sample_tem sample_ready)) \<noteq> [] \<and>
   (\<exists>before after.
      ask (ui (run_events sample_tem sample_ready)) 2 =
        before @ FetchAsk (ascii ''oil?'') (ascii ''SONATA'') # after \<and>
      \<not> list_ex is_network before \<and>
      question (run before (ui (run_events sample_tem sample_ready))) = [])"
  using question_shown_before_request [OF sample_ready_facts(4) sample_ready_facts(3),
      of 2 sample_tem "FetchRejected []" "JsonRejected []" 3 4]
    sample_ready_facts(3,4)
  by (auto simp add: sample_ready_ui)

section \<open>The loading stages\<close>

text \<open>
  C8. When the draft is not blank and a vehicle is selected, \<open>ask\<close> has set \<open>loading\<close>
  and the "searching" step before it issues the request, which carries the draft and the
  selected vehicle. On a response the first thing done is to set the "generating" step,
  so it is set when the body is read. \<open>ask\<close> does not read a body before that. At the
  end of every outcome \<open>loading\<close> is false and the loading step is empty.

  So the state after \<open>ask\<close> has \<open>loading\<close> and the "searching" step, the state after
  a response with a success status has \<open>loading\<close> and the "generating" step, and the
  state at the end has neither. The three differ: the two steps are the two literals of
  the source, they are not the same text, and neither is the empty text of the end.
\<close>

theorem loading_stages:
  assumes "trim (question s) \<noteq> []" "selectedVehicle s \<noteq> []"
  shows "(\<exists>before after.
            ask s now = before @ FetchAsk (question s) (selectedVehicle s) # after \<and>
            \<not> list_ex is_network before \<and>
            loading (run before s) \<and> loadingStep (run before s) = searching_label) \<and>
         (\<exists>rest. ask_fetched (Responded status) t1 = SetLoadingStep generating_label # rest \<and>
            (ReadJson \<in> set rest \<longrightarrow>
               loading (run (ask_fetched (Responded status) t1) s') = loading s' \<and>
               loadingStep (run (ask_fetched (Responded status) t1) s') = generating_label)) \<and>
         ReadJson \<notin> set (ask s now) \<and>
         \<not> loading (run (ask_rest tem r b t1 t2) s') \<and>
         loadingStep (run (ask_rest tem r b t1 t2) s') = [] \<and>
         loading (run (ask s now) s) \<and>
         loadingStep (run (ask s now) s) = searching_label \<and>
         (ok status \<longrightarrow>
            loading (run (ask_fetched (Responded status) t1) (run (ask s now) s)) \<and>
            loadingStep (run (ask_fetched (Responded status) t1) (run (ask s now) s)) =
              generating_label) \<and>
         searching_label =
           [0xB9E4, 0xB274, 0xC5BC, 0x0020, 0xAC80, 0xC0C9, 0x0020, 0xC911,
            0x002E, 0x002E, 0x002E] \<and>
         generating_label =
           [0xB2F5, 0xBCC0, 0x0020, 0xC0DD, 0xC131, 0x0020, 0xC911, 0x002E, 0x002E, 0x002E] \<and>
         searching_label \<noteq> generating_label \<and>
         searching_label \<noteq> [] \<and> generating_label \<noteq> []"
proof -
  let ?u = "userMessage (question s) now"
  let ?before = "[AppendMessage ?u, SetQuestion [], SetLoading True, SetLoadingStep searching_label]"
  have "ask s now = ?before @ FetchAsk (question s) (selectedVehicle s) # []"
    using assms by (simp add: ask_def)
  moreover have "\<not> list_ex is_network ?before"
    by simp
  moreover have "loading (run ?before s)" "loadingStep (run ?before s) = searching_label"
    by (simp_all add: run_Cons run_nil)
  ultimately have first: "\<exists>before after.
      ask s now = before @ FetchAsk (question s) (selectedVehicle s) # after \<and>
      \<not> list_ex is_network before \<and>
      loading (run before s) \<and> loadingStep (run before s) = searching_label"
    by blast
  have second: "\<exists>rest. ask_fetched (Responded status) t1 = SetLoadingStep generating_label # rest \<and>
      (ReadJson \<in> set rest \<longrightarrow>
         loading (run (ask_fetched (Responded status) t1) s') = loading s' \<and>
         loadingStep (run (ask_fetched (Responded status) t1) s') = generating_label)"
    by (simp add: ask_fetched_def ask_catch_def run_Cons run_nil)
  have third: "ReadJson \<notin> set (ask s now)"
    by (simp add: ask_def)
  have searching: "loading (run (ask s now) s)" "loadingStep (run (ask s now) s) = searching_label"
    using assms by (simp_all add: ask_run)
  have generating: "ok status \<longrightarrow>
      loading (run (ask_fetched (Responded status) t1) (run (ask s now) s)) \<and>
      loadingStep (run (ask_fetched (Responded status) t1) (run (ask s now) s)) =
        generating_label"
    using searching(1) by (simp add: ask_fetched_run)
  have labels: "searching_label =
      [0xB9E4, 0xB274, 0xC5BC, 0x0020, 0xAC80, 0xC0C9, 0x0020, 0xC911, 0x002E, 0x002E, 0x002E]"
    "generating_label =
      [0xB2F5, 0xBCC0, 0x0020, 0xC0DD, 0xC131, 0x0020, 0xC911, 0x002E, 0x002E, 0x002E]"
    "searching_label \<noteq> generating_label" "searching_label \<noteq> []" "generating_label \<noteq> []"
    by (simp_all add: searching_label_def generating_label_def)
  show ?thesis
    using first second third ask_rest_idle [of tem r b t1 t2 s'] searching generating labels
    by blast
qed

theorem loading_stages_witness:
  "trim (question (ui (run_events sample_tem sample_ready))) \<noteq> [] \<and>
   selectedVehicle (ui (run_events sample_tem sample_ready)) \<noteq> [] \<and>
   (\<exists>rest. ask_fetched (Responded 200) 3 = SetLoadingStep generating_label # rest \<and>
      ReadJson \<in> set rest) \<and>
   \<not> loading (run (ask_rest sample_tem (Responded 200) (JsonRejected []) 3 4) init_state) \<and>
   ok 200 \<and>
   loadingStep (run (ask_fetched (Responded 200) 3)
      (run (ask (ui (run_events sample_tem sample_ready)) 2)
         (ui (run_events sample_tem sample_ready)))) = generating_label \<and>
   searching_label \<noteq> generating_label"
proof -
  have "ok 200"
    by (simp add: ok_def)
  then show ?thesis
    using loading_stages [OF sample_ready_facts(4) sample_ready_facts(3),
        where now = 2 and status = 200 and ?t1.0 = 3 and s' = init_state and tem = sample_tem
          and r = "Responded 200" and b = "JsonRejected []" and ?t2.0 = 4]
      sample_ready_facts(3,4)
    by (auto simp add: ask_fetched_def ok_def)
qed

section \<open>A failed load of the catalog\<close>

text \<open>
  C9. When the load of the catalog fails (\<open>fetch\<close> rejects, or the body is not JSON),
  the whole state is left as it was, so both lists and the transcript are; the only
  thing done besides reading the body is one \<open>console.error\<close>; and the application
  requests the catalog once in all, whatever happens.
\<close>

theorem failed_load_keeps_catalog:
  assumes "load_fails r b"
  shows "run (fetchVehicles_rest tem r b) s = s \<and>
         (\<exists>msg. fetchVehicles_rest tem r b = [ConsoleError catalog_error_label msg] \<or>
                 fetchVehicles_rest tem r b = [ReadJson, ConsoleError catalog_error_label msg]) \<and>
         count_list (trace (run_events tem es)) FetchVehicles = 1"
  using assms
  by (cases r; cases b)
     (simp_all add: fetchVehicles_rest_def fetchVehicles_fetched_def fetchVehicles_parsed_def
        run_Cons run_nil fetched_once)

theorem failed_load_keeps_catalog_witness:
  "load_fails (Responded 500) (JsonRejected (ascii ''Unexpected token'')) \<and>
   run (fetchVehicles_rest sample_tem (Responded 500) (JsonRejected (ascii ''Unexpected token'')))
       init_state = init_state \<and>
   count_list (trace (run_events sample_tem sample_catalog)) FetchVehicles = 1"
proof -
  have "load_fails (Responded 500) (JsonRejected (ascii ''Unexpected token''))"
    by simp
  then show ?thesis
    using failed_load_keeps_catalog [of "Responded 500" "JsonRejected (ascii ''Unexpected token'')"
        sample_tem init_state sample_catalog]
    by blast
qed

section \<open>The default catalog\<close>

text \<open>
  C10. The state the component starts in, and the state after a failed load, lists
  exactly SONATA, SANTAFE, TUCSON, AVANTE, GRANDEUR and PALISADE, all of them available:
  each has a card, and a click on it enters the chat screen with that vehicle selected,
  which is what \<open>ask\<close> needs to send a question.
\<close>

theorem default_catalog_available:
  assumes "load_fails r b"
    and "v \<in> set [ascii ''SONATA'', ascii ''SANTAFE'', ascii ''TUCSON'',
                  ascii ''AVANTE'', ascii ''GRANDEUR'', ascii ''PALISADE'']"
    and "s = run (fetchVehicles_rest tem r b) init_state"
  shows "s = init_state \<and>
         allVehicles s = JArr (map JStr [ascii ''SONATA'', ascii ''SANTAFE'', ascii ''TUCSON'',
                  ascii ''AVANTE'', ascii ''GRANDEUR'', ascii ''PALISADE'']) \<and>
         availableVehicles s = allVehicles s \<and>
         card_shown s v \<and> isAvailable s v = Some True \<and>
         \<not> vehicleSelectionStep (run (card_onClick s v now) s) \<and>
         selectedVehicle (run (card_onClick s v now) s) = v \<and> v \<noteq> []"
proof -
  have "s = init_state"
    using assms(1,3)
    by (cases r; cases b)
       (simp_all add: fetchVehicles_rest_def fetchVehicles_fetched_def fetchVehicles_parsed_def
          run_Cons run_nil)
  moreover have "v \<in> set default_codes"
    using assms(2) by (simp add: default_codes_def)
  moreover have "v \<noteq> []"
    using assms(2) by (auto simp add: ascii_def)
  ultimately show ?thesis
    by (simp add: init_state_def card_shown_def isAvailable_def card_onClick_def
        selectVehicle_run) (simp add: default_codes_def)
qed

theorem default_catalog_available_witness:
  "load_fails (FetchRejected (ascii ''Failed to fetch'')) (JsonRejected []) \<and>
   ascii ''TUCSON'' \<in> set [ascii ''SONATA'', ascii ''SANTAFE'', ascii ''TUCSON'',
                            ascii ''AVANTE'', ascii ''GRANDEUR'', ascii ''PALISADE''] \<and>
   card_shown
     (run (fetchVehicles_rest sample_tem (FetchRejected (ascii ''Failed to fetch'')) (JsonRejected []))
        init_state) (ascii ''TUCSON'') \<and>
   isAvailable
     (run (fetchVehicles_rest sample_tem (FetchRejected (ascii ''Failed to fetch'')) (JsonRejected []))
        init_state) (ascii ''TUCSON'') = Some True"
proof -
  have fails: "load_fails (FetchRejected (ascii ''Failed to fetch'')) (JsonRejected [])"
    by simp
  have code: "ascii ''TUCSON'' \<in> set [ascii ''SONATA'', ascii ''SANTAFE'', ascii ''TUCSON'',
      ascii ''AVANTE'', ascii ''GRANDEUR'', ascii ''PALISADE'']"
    by simp
  show ?thesis
    using default_catalog_available [OF fails code refl, of sample_tem 1] fails code
    by blast
qed

end
